theory Spec2Isabelle
  imports Complex_Main
begin

section \<open>The number-guessing agent of \<^verbatim>\<open>project1/main.py\<close>\<close>

text \<open>
  The program lets a language model guess a secret number through one tool,
  \<^verbatim>\<open>evaluate_your_try\<close>. The model below follows the Python source function by
  function. Effects are explicit: every method takes the agent and returns the agent it
  leaves behind together with how it completed (normally, or by raising).
\<close>

subsection \<open>Values, exceptions and output\<close>

text \<open>
  A Python \<^verbatim>\<open>float\<close> as far as comparisons with an \<^verbatim>\<open>int\<close> see it: a finite float
  is a rational number (Python compares it with an integer exactly), and there are the
  two infinities and NaN.
\<close>

datatype pyfloat = Finite rat | PosInf | NegInf | NaN

text \<open>
  What \<^verbatim>\<open>json.loads\<close> can return. An object is a \<^verbatim>\<open>dict\<close>, kept as an association
  list; \<^verbatim>\<open>json.loads\<close> builds it with distinct keys.
\<close>

datatype json =
    JNull
  | JBool bool
  | JInt int
  | JFloat pyfloat
  | JString string
  | JArray "json list"
  | JObject "(string \<times> json) list"

text \<open>
  The exceptions of the program, all of class \<^verbatim>\<open>Exception\<close>: \<open>ClientError\<close> is whatever
  the provider's SDK raises, \<open>JSONDecodeError\<close> comes from \<^verbatim>\<open>json.loads\<close>,
  \<open>IndexError\<close>, \<open>KeyError\<close> and \<open>TypeError\<close> from the interpreter, and \<open>Exception\<close> is
  the plain \<^verbatim>\<open>Exception(msg)\<close> of \<^verbatim>\<open>process_message\<close>.
\<close>

datatype py_exception =
    ClientError string
  | JSONDecodeError string
  | IndexError
  | KeyError string
  | TypeError
  | Exception string

text \<open>How a call completes: it returns (\<^verbatim>\<open>None\<close>, for every method here) or raises.\<close>

datatype completion = Normal | Raise py_exception

text \<open>
  One \<^verbatim>\<open>print\<close> call each. A line made of text and integers only is rendered; where the
  f-string formats an arbitrary object (the guess, an optional content, an exception)
  the line keeps the object instead of Python's rendering of it.
\<close>

datatype printed =
    Text string
  | LLM_guess json
  | LLM_content "string option"
  | Error_line py_exception

subsection \<open>Rendering integers and JSON strings\<close>

definition digit_char :: "nat \<Rightarrow> char" where
  "digit_char d = char_of (of_char (CHR ''0'') + d)"

fun str_nat :: "nat \<Rightarrow> string" where
  "str_nat n = (if n < 10 then [digit_char n] else str_nat (n div 10) @ [digit_char (n mod 10)])"

declare str_nat.simps [simp del]

text \<open>\<^verbatim>\<open>str(i)\<close> for an integer, as an f-string renders it.\<close>

definition str_int :: "int \<Rightarrow> string" where
  "str_int i = (if i < 0 then CHR ''-'' # str_nat (nat (- i)) else str_nat (nat i))"

definition hex_char :: "nat \<Rightarrow> char" where
  "hex_char d = (if d < 10 then digit_char d else char_of (of_char (CHR ''a'') + (d - 10)))"

text \<open>
  \<^verbatim>\<open>json.dumps\<close> on a \<^verbatim>\<open>str\<close> (with the default \<^verbatim>\<open>ensure_ascii\<close>): the characters
  between double quotes, where a double quote and a backslash are escaped with a
  backslash, the control characters with a short escape have it, and every other
  character outside the printable ASCII range becomes \<^verbatim>\<open>\u00XX\<close>. Characters are the
  code points below 256 here.
\<close>

definition json_escape :: "char \<Rightarrow> string" where
  "json_escape c =
     (if c = CHR 0x22 then [CHR 0x5C, CHR 0x22]
      else if c = CHR 0x5C then [CHR 0x5C, CHR 0x5C]
      else if c = CHR 0x0A then [CHR 0x5C, CHR ''n'']
      else if c = CHR 0x0D then [CHR 0x5C, CHR ''r'']
      else if c = CHR 0x09 then [CHR 0x5C, CHR ''t'']
      else if c = CHR 0x0C then [CHR 0x5C, CHR ''f'']
      else if c = CHR 0x08 then [CHR 0x5C, CHR ''b'']
      else if (of_char c :: nat) < 0x20 \<or> (of_char c :: nat) > 0x7E
        then [CHR 0x5C, CHR ''u'', CHR ''0'', CHR ''0'',
              hex_char ((of_char c :: nat) div 16), hex_char ((of_char c :: nat) mod 16)]
      else [c])"

definition json_dumps :: "string \<Rightarrow> string" where
  "json_dumps s = [CHR 0x22] @ concat (map json_escape s) @ [CHR 0x22]"

subsection \<open>The evaluator\<close>

definition TOO_HIGH_MESSAGE :: string where
  "TOO_HIGH_MESSAGE = ''Too high!''"

definition TOO_LOW_MESSAGE :: string where
  "TOO_LOW_MESSAGE = ''Too low!''"

definition THAT_IS_RIGHT_MESSAGE :: string where
  "THAT_IS_RIGHT_MESSAGE = ''That'' @ [CHR 0x27] @ ''s right!''"

text \<open>
  The module's globals that are not constants of the source text: the secret
  \<^verbatim>\<open>app_random_number\<close>, drawn once by \<^verbatim>\<open>random.randint(1, 100)\<close> when the module is
  loaded, and the library function \<^verbatim>\<open>json.loads\<close>, which either raises or returns a
  value.
\<close>

record globals =
  app_random_number :: int
  json_loads :: "string \<Rightarrow> py_exception + json"

text \<open>
  \<^verbatim>\<open>guess > n\<close> and \<^verbatim>\<open>guess < n\<close> for an integer \<^verbatim>\<open>n\<close>: defined on numbers
  (\<^verbatim>\<open>bool\<close> is a subclass of \<^verbatim>\<open>int\<close>; NaN compares false with everything), a
  \<^verbatim>\<open>TypeError\<close> on anything else.
\<close>

fun py_gt :: "json \<Rightarrow> int \<Rightarrow> py_exception + bool" where
  "py_gt (JInt g) n = Inr (g > n)"
| "py_gt (JBool b) n = Inr ((if b then 1 else 0) > n)"
| "py_gt (JFloat (Finite q)) n = Inr (q > of_int n)"
| "py_gt (JFloat PosInf) n = Inr True"
| "py_gt (JFloat NegInf) n = Inr False"
| "py_gt (JFloat NaN) n = Inr False"
| "py_gt _ n = Inl TypeError"

fun py_lt :: "json \<Rightarrow> int \<Rightarrow> py_exception + bool" where
  "py_lt (JInt g) n = Inr (g < n)"
| "py_lt (JBool b) n = Inr ((if b then 1 else 0) < n)"
| "py_lt (JFloat (Finite q)) n = Inr (q < of_int n)"
| "py_lt (JFloat PosInf) n = Inr False"
| "py_lt (JFloat NegInf) n = Inr True"
| "py_lt (JFloat NaN) n = Inr False"
| "py_lt _ n = Inl TypeError"

text \<open>
  \<^verbatim>\<open>evaluate_your_try(guess)\<close>: what it prints, and what it returns or raises. The
  guess is printed before it is compared.
\<close>

definition evaluate_your_try :: "globals \<Rightarrow> json \<Rightarrow> printed list \<times> (py_exception + string)" where
  "evaluate_your_try G guess =
     ([LLM_guess guess],
      (case py_gt guess (app_random_number G) of
         Inl e \<Rightarrow> Inl e
       | Inr True \<Rightarrow> Inr TOO_HIGH_MESSAGE
       | Inr False \<Rightarrow>
           (case py_lt guess (app_random_number G) of
              Inl e \<Rightarrow> Inl e
            | Inr True \<Rightarrow> Inr TOO_LOW_MESSAGE
            | Inr False \<Rightarrow> Inr THAT_IS_RIGHT_MESSAGE)))"

subsection \<open>The provider's data\<close>

text \<open>
  A tool invocation of a response: \<^verbatim>\<open>tc.id\<close>, \<^verbatim>\<open>tc.function.name\<close> and
  \<^verbatim>\<open>tc.function.arguments\<close> (a string holding JSON).
\<close>

record function_call =
  fn_name :: string
  fn_arguments :: string

record tool_call =
  tc_id :: string
  tc_function :: function_call

text \<open>
  \<^verbatim>\<open>response.choices[i].message\<close>: an optional content and an optional list of tool
  invocations (\<^verbatim>\<open>None\<close> when the model answered in text).
\<close>

record response_message =
  rm_content :: "string option"
  rm_tool_calls :: "tool_call list option"

text \<open>A response; each choice is kept as its \<^verbatim>\<open>message\<close>.\<close>

record response =
  choices :: "response_message list"

text \<open>An entry of \<^verbatim>\<open>g_tools\<close>: a function, its description and its parameters.\<close>

record tool_param =
  param_name :: string
  param_type :: string
  param_description :: string

record tool =
  tool_type :: string
  tool_name :: string
  tool_description :: string
  tool_properties :: "tool_param list"
  tool_required :: "string list"

definition g_tools :: "tool list" where
  "g_tools =
     [\<lparr>tool_type = ''function'',
       tool_name = ''evaluate_your_try'',
       tool_description = ''Use this function to evaluate your guessed number. Returns a message indicating whether your guess was too high, too low, or correct.'',
       tool_properties =
         [\<lparr>param_name = ''guess'', param_type = ''number'',
           param_description = ''Your guess number.''\<rparr>],
       tool_required = [''guess'']\<rparr>]"

text \<open>
  The dictionaries of the transcript \<^verbatim>\<open>self.messages\<close>, one constructor for each of
  the three shapes the program builds: \<^verbatim>\<open>{"role", "content"}\<close>, the assistant turn
  with its \<^verbatim>\<open>tool_calls\<close> (each an identifier, a name and the arguments, kept as a
  \<open>tool_call\<close>), and the tool-result turn \<^verbatim>\<open>{"role": "tool", "tool_call_id", "name",
  "content"}\<close>.
\<close>

datatype message =
    Msg string string
  | AssistantMsg "string option" "tool_call list"
  | ToolMsg string string string

text \<open>What \<^verbatim>\<open>client.chat.completions.create\<close> is called with.\<close>

record request =
  req_model :: string
  req_messages :: "message list"
  req_tools :: "tool list"

subsection \<open>The agent\<close>

datatype GameState = INIT | PLAYING | END

text \<open>
  The object \<^verbatim>\<open>OpenAIGuessGameAgent\<close> with what it acts on. The provider is opaque:
  \<open>client\<close> gives, from the requests it has received before and the request it receives
  now, either the exception that \<^verbatim>\<open>create\<close> raises or its response; \<open>requests\<close> is
  that history, the calls made so far, in order. \<open>stdout\<close> is what has been printed.
\<close>

record agent =
  client :: "request list \<Rightarrow> request \<Rightarrow> py_exception + response"
  requests :: "request list"
  model :: string
  max_tries :: int
  state :: GameState
  messages :: "message list"
  stdout :: "printed list"

definition start_game_message :: "int \<Rightarrow> string" where
  "start_game_message n =
     ''ME: I am thinking of a number between 1 and 100 and you will try to guess it. You have ''
       @ str_int n @ '' tries to guess.''"

text \<open>\<^verbatim>\<open>init\<close>: prints the opening line and seeds the transcript.\<close>

definition init :: "agent \<Rightarrow> agent" where
  "init a =
     a\<lparr>stdout := stdout a @ [Text (start_game_message (max_tries a))],
       messages := [Msg ''system'' ''You are a fortune teller'',
                    Msg ''user'' (start_game_message (max_tries a))]\<rparr>"

text \<open>
  The constructor \<^verbatim>\<open>__init__(client, model, max_tries)\<close>, on a provider that has
  received nothing and an empty output.
\<close>

definition new_agent ::
  "(request list \<Rightarrow> request \<Rightarrow> py_exception + response) \<Rightarrow> string \<Rightarrow> int \<Rightarrow> agent" where
  "new_agent c m n =
     init \<lparr>client = c, requests = [], model = m, max_tries = n, state = INIT,
           messages = [], stdout = []\<rparr>"

subsection \<open>Dispatching a tool invocation\<close>

text \<open>
  \<^verbatim>\<open>evaluate_your_try(**kwargs)\<close> for the entries of a dictionary: the one parameter
  \<^verbatim>\<open>guess\<close> is bound when the dictionary is exactly \<^verbatim>\<open>{"guess": v}\<close>; a missing or
  an unexpected keyword is a \<^verbatim>\<open>TypeError\<close>, raised before the body runs.
\<close>

fun evaluate_your_try_kw ::
  "globals \<Rightarrow> (string \<times> json) list \<Rightarrow> printed list \<times> (py_exception + string)" where
  "evaluate_your_try_kw G [(k, v)] =
     (if k = ''guess'' then evaluate_your_try G v else ([], Inl TypeError))"
| "evaluate_your_try_kw G _ = ([], Inl TypeError)"

text \<open>The dictionary \<^verbatim>\<open>available_functions\<close>.\<close>

definition available_functions ::
  "string \<rightharpoonup> (globals \<Rightarrow> (string \<times> json) list \<Rightarrow> printed list \<times> (py_exception + string))" where
  "available_functions = [''evaluate_your_try'' \<mapsto> evaluate_your_try_kw]"

text \<open>
  \<^verbatim>\<open>function_to_call(**function_args)\<close>: anything but a dictionary after \<^verbatim>\<open>**\<close> is
  a \<^verbatim>\<open>TypeError\<close>.
\<close>

fun call_with_kwargs ::
  "(globals \<Rightarrow> (string \<times> json) list \<Rightarrow> printed list \<times> (py_exception + string)) \<Rightarrow>
   globals \<Rightarrow> json \<Rightarrow> printed list \<times> (py_exception + string)" where
  "call_with_kwargs f G (JObject kvs) = f G kvs"
| "call_with_kwargs f G _ = ([], Inl TypeError)"

text \<open>
  The first half of an iteration of the loop
  \<^verbatim>\<open>for tool_call in response_message.tool_calls\<close>, up to \<^verbatim>\<open>function_response\<close>:
  parse the arguments, look the function up, call it. Each step may raise; the result
  is what the call printed and the response or the exception.
\<close>

definition dispatch :: "globals \<Rightarrow> tool_call \<Rightarrow> printed list \<times> (py_exception + string)" where
  "dispatch G tool_call =
     (let function_name = fn_name (tc_function tool_call) in
      case json_loads G (fn_arguments (tc_function tool_call)) of
        Inl e \<Rightarrow> ([], Inl e)
      | Inr function_args \<Rightarrow>
          (case available_functions function_name of
             None \<Rightarrow> ([], Inl (KeyError function_name))
           | Some function_to_call \<Rightarrow> call_with_kwargs function_to_call G function_args))"

text \<open>
  The whole iteration: after the dispatch, "That's right!" ends the game, the response
  is printed, and the tool-result turn is appended with the response serialized by
  \<^verbatim>\<open>json.dumps\<close>.
\<close>

definition tool_call_step :: "globals \<Rightarrow> tool_call \<Rightarrow> agent \<Rightarrow> completion \<times> agent" where
  "tool_call_step G tool_call a =
     (let function_name = fn_name (tc_function tool_call);
          tool_id = tc_id tool_call
      in case dispatch G tool_call of
           (out, Inl e) \<Rightarrow> (Raise e, a\<lparr>stdout := stdout a @ out\<rparr>)
         | (out, Inr function_response) \<Rightarrow>
             (Normal,
              a\<lparr>state := (if function_response = THAT_IS_RIGHT_MESSAGE then END else state a),
                stdout := stdout a @ out @ [Text (''ME: '' @ function_response)],
                messages := messages a @
                  [ToolMsg tool_id function_name (json_dumps function_response)]\<rparr>))"

text \<open>The \<^verbatim>\<open>for\<close> loop: the invocations in order, left by the first exception.\<close>

fun tool_calls_loop :: "globals \<Rightarrow> tool_call list \<Rightarrow> agent \<Rightarrow> completion \<times> agent" where
  "tool_calls_loop G [] a = (Normal, a)"
| "tool_calls_loop G (tool_call # rest) a =
     (case tool_call_step G tool_call a of
        (Raise e, a') \<Rightarrow> (Raise e, a')
      | (Normal, a') \<Rightarrow> tool_calls_loop G rest a')"

text \<open>
  \<^verbatim>\<open>process_tool_response\<close>: the assistant turn with the invocations first, then the
  loop. Iterating \<^verbatim>\<open>None\<close> would be a \<^verbatim>\<open>TypeError\<close>; \<open>call_llm\<close> never passes it.
\<close>

definition process_tool_response ::
  "globals \<Rightarrow> response_message \<Rightarrow> agent \<Rightarrow> completion \<times> agent" where
  "process_tool_response G response_message a =
     (case rm_tool_calls response_message of
        None \<Rightarrow> (Raise TypeError, a)
      | Some tcs \<Rightarrow>
          tool_calls_loop G tcs
            (a\<lparr>messages := messages a @ [AssistantMsg (rm_content response_message) tcs]\<rparr>))"

definition unexpected_message :: string where
  "unexpected_message = ''Unexpected message from LLM during PLAYING state.''"

text \<open>\<^verbatim>\<open>process_message\<close>: prints the content, and raises while the game is on.\<close>

definition process_message :: "response_message \<Rightarrow> agent \<Rightarrow> completion \<times> agent" where
  "process_message response_message a =
     (let a1 = a\<lparr>stdout := stdout a @ [LLM_content (rm_content response_message)]\<rparr> in
      if state a1 = PLAYING then (Raise (Exception unexpected_message), a1)
      else (Normal, a1))"

text \<open>The truth value of \<^verbatim>\<open>response_message.tool_calls\<close>: a list that is not empty.\<close>

fun truthy :: "'a list option \<Rightarrow> bool" where
  "truthy None = False"
| "truthy (Some []) = False"
| "truthy (Some (x # xs)) = True"

text \<open>
  \<^verbatim>\<open>call_llm(tools)\<close>: one request with the transcript as it stands, then the handler
  for the first choice. \<^verbatim>\<open>create\<close> may raise, and \<^verbatim>\<open>choices[0]\<close> is an
  \<^verbatim>\<open>IndexError\<close> on an empty list.
\<close>

definition call_llm :: "globals \<Rightarrow> tool list \<Rightarrow> agent \<Rightarrow> completion \<times> agent" where
  "call_llm G tools a =
     (let req = \<lparr>req_model = model a, req_messages = messages a, req_tools = tools\<rparr>;
          a1 = a\<lparr>requests := requests a @ [req]\<rparr>
      in case client a (requests a) req of
           Inl e \<Rightarrow> (Raise e, a1)
         | Inr response \<Rightarrow>
             (case choices response of
                [] \<Rightarrow> (Raise IndexError, a1)
              | response_message # _ \<Rightarrow>
                  if truthy (rm_tool_calls response_message)
                  then process_tool_response G response_message a1
                  else process_message response_message a1))"

subsection \<open>The game\<close>

text \<open>
  No method writes \<^verbatim>\<open>self.max_tries\<close>; the guessing loop below terminates because
  of it.
\<close>

lemma tool_call_step_max_tries:
  "tool_call_step G tc a = (out, a') \<Longrightarrow> max_tries a' = max_tries a"
  by (auto simp: tool_call_step_def Let_def split: sum.splits option.splits prod.splits)

lemma tool_calls_loop_max_tries:
  "tool_calls_loop G tcs a = (out, a') \<Longrightarrow> max_tries a' = max_tries a"
  by (induction tcs arbitrary: a)
     (auto split: prod.splits completion.splits dest: tool_call_step_max_tries)

lemma call_llm_max_tries:
  "call_llm G tools a = (out, a') \<Longrightarrow> max_tries a' = max_tries a"
  by (auto simp: call_llm_def Let_def process_tool_response_def process_message_def
      split: sum.splits list.splits option.splits if_splits dest: tool_calls_loop_max_tries)

text \<open>
  How the \<^verbatim>\<open>while\<close> loop of \<^verbatim>\<open>play\<close> is left: by its \<^verbatim>\<open>return\<close>, by its condition
  becoming false, or by an exception on its way to the \<^verbatim>\<open>except\<close> clause.
\<close>

datatype loop_exit = Returned | Exhausted | Raised py_exception

text \<open>
  The loop \<^verbatim>\<open>while llm_try < self.max_tries\<close>, from the value \<open>llm_try\<close> of the counter.
  The source increments the counter first and then calls the model with the tools.
\<close>

function guess_loop :: "globals \<Rightarrow> agent \<Rightarrow> int \<Rightarrow> loop_exit \<times> agent" where
  "guess_loop G a llm_try =
     (if llm_try < max_tries a then
        (case call_llm G g_tools a of
           (Raise e, a') \<Rightarrow> (Raised e, a')
         | (Normal, a') \<Rightarrow>
             if state a' = END then (Returned, a') else guess_loop G a' (llm_try + 1))
      else (Exhausted, a))"
  by pat_completeness auto
termination
  by (relation "measure (\<lambda>(G, a, llm_try). nat (max_tries a - llm_try))")
     (auto dest!: call_llm_max_tries [OF sym])

declare guess_loop.simps [simp del]

definition final_message :: "globals \<Rightarrow> string" where
  "final_message G =
     ''ME: You lost! My number was '' @ str_int (app_random_number G)
       @ ''. How is it possible when you are the fortune teller?''"

text \<open>
  The statements of \<^verbatim>\<open>play\<close> after the \<^verbatim>\<open>try\<close> statement: the state is set to
  \<^verbatim>\<open>END\<close>, the final message is printed and appended as a user turn, and the model is
  called once more, with no tools. This call is outside the \<^verbatim>\<open>try\<close>: what it raises
  leaves \<^verbatim>\<open>play\<close>.
\<close>

definition play_epilogue :: "globals \<Rightarrow> agent \<Rightarrow> completion \<times> agent" where
  "play_epilogue G a =
     call_llm G []
       (a\<lparr>state := END,
          stdout := stdout a @ [Text (final_message G)],
          messages := messages a @ [Msg ''user'' (final_message G)]\<rparr>)"

text \<open>
  \<^verbatim>\<open>play\<close> from the top of the loop with the counter at \<open>llm_try\<close>: the \<^verbatim>\<open>try\<close>
  statement around the loop, whose \<^verbatim>\<open>except Exception\<close> clause prints the exception,
  and then the statements after it, unless the loop returned.
\<close>

definition play_from :: "globals \<Rightarrow> agent \<Rightarrow> int \<Rightarrow> completion \<times> agent" where
  "play_from G a llm_try =
     (case guess_loop G a llm_try of
        (Returned, a') \<Rightarrow> (Normal, a')
      | (Exhausted, a') \<Rightarrow> play_epilogue G a'
      | (Raised e, a') \<Rightarrow> play_epilogue G (a'\<lparr>stdout := stdout a' @ [Error_line e]\<rparr>))"

text \<open>\<^verbatim>\<open>play\<close>: the state becomes \<^verbatim>\<open>PLAYING\<close> and the counter starts at 0.\<close>

definition play :: "globals \<Rightarrow> agent \<Rightarrow> completion \<times> agent" where
  "play G a = play_from G (a\<lparr>state := PLAYING\<rparr>) 0"

subsection \<open>Notions used to state the properties\<close>

text \<open>
  The invocations of a list that the loop answers, each with the response of its
  dispatch: those before the first one whose dispatch raises.
\<close>

fun answered :: "globals \<Rightarrow> tool_call list \<Rightarrow> (tool_call \<times> string) list" where
  "answered G [] = []"
| "answered G (tc # tcs) =
     (case snd (dispatch G tc) of Inl e \<Rightarrow> [] | Inr r \<Rightarrow> (tc, r) # answered G tcs)"

text \<open>The tool-result turn of the source for an invocation and its response.\<close>

definition tool_turn :: "tool_call \<times> string \<Rightarrow> message" where
  "tool_turn p = ToolMsg (tc_id (fst p)) (fn_name (tc_function (fst p))) (json_dumps (snd p))"

text \<open>The request that \<open>call_llm\<close> sends from an agent.\<close>

definition the_request :: "agent \<Rightarrow> tool list \<Rightarrow> request" where
  "the_request a tools = \<lparr>req_model = model a, req_messages = messages a, req_tools = tools\<rparr>"


text \<open>A tool-result turn that carries the evaluator's "That's right!".\<close>

fun correct_result :: "message \<Rightarrow> bool" where
  "correct_result (ToolMsg i n c) = (c = json_dumps THAT_IS_RIGHT_MESSAGE)"
| "correct_result _ = False"

subsection \<open>Scripted providers and concrete games\<close>

text \<open>
  A provider that answers the \<open>n\<close>-th request with the \<open>n\<close>-th entry of a script, and
  fails once the script is used up.
\<close>

definition scripted_client ::
  "(py_exception + response) list \<Rightarrow> request list \<Rightarrow> request \<Rightarrow> py_exception + response" where
  "scripted_client script history req =
     (if length history < length script then script ! length history
      else Inl (ClientError ''connection lost''))"

text \<open>
  \<^verbatim>\<open>json.loads\<close> on the argument strings that occur in a game, given as a table; every
  other string is rejected.
\<close>

definition table_loads :: "(string \<times> json) list \<Rightarrow> string \<Rightarrow> py_exception + json" where
  "table_loads tbl s = (case map_of tbl s of Some v \<Rightarrow> Inr v | None \<Rightarrow> Inl (JSONDecodeError s))"

text \<open>The argument string \<^verbatim>\<open>{"guess": N}\<close> for the digits \<^verbatim>\<open>N\<close>.\<close>

definition guess_args :: "string \<Rightarrow> string" where
  "guess_args digits = ''{'' @ [CHR 0x22] @ ''guess'' @ [CHR 0x22] @ '': '' @ digits @ ''}''"

definition guess_call :: "string \<Rightarrow> string \<Rightarrow> tool_call" where
  "guess_call i digits =
     \<lparr>tc_id = i, tc_function = \<lparr>fn_name = ''evaluate_your_try'', fn_arguments = guess_args digits\<rparr>\<rparr>"

definition tool_response :: "tool_call list \<Rightarrow> py_exception + response" where
  "tool_response tcs = Inr \<lparr>choices = [\<lparr>rm_content = None, rm_tool_calls = Some tcs\<rparr>]\<rparr>"

definition text_response :: "string \<Rightarrow> py_exception + response" where
  "text_response c = Inr \<lparr>choices = [\<lparr>rm_content = Some c, rm_tool_calls = None\<rparr>]\<rparr>"

definition guess_table :: "(string \<times> json) list" where
  "guess_table =
     [(guess_args ''10'', JObject [(''guess'', JInt 10)]),
      (guess_args ''42'', JObject [(''guess'', JInt 42)]),
      (guess_args ''50'', JObject [(''guess'', JInt 50)]),
      (guess_args ''70'', JObject [(''guess'', JInt 70)]),
      (guess_args ''90'', JObject [(''guess'', JInt 90)])]"

text \<open>The secret is 7, two tries, and the model guesses 50 and 90.\<close>

definition G7 :: globals where
  "G7 = \<lparr>app_random_number = 7, json_loads = table_loads guess_table\<rparr>"

definition agent7 :: agent where
  "agent7 =
     new_agent
       (scripted_client [tool_response [guess_call ''call_1'' ''50''],
                         tool_response [guess_call ''call_2'' ''90''],
                         text_response ''I give up''])
       ''gpt-5-nano'' 2"

text \<open>The secret is 42, five tries, and the model guesses 70, 10 and 42.\<close>

definition G42 :: globals where
  "G42 = \<lparr>app_random_number = 42, json_loads = table_loads guess_table\<rparr>"

definition agent42 :: agent where
  "agent42 =
     new_agent
       (scripted_client [tool_response [guess_call ''call_1'' ''70''],
                         tool_response [guess_call ''call_2'' ''10''],
                         tool_response [guess_call ''call_3'' ''42'']])
       ''gpt-5-nano'' 5"

text \<open>The model answers in text instead of calling the tool.\<close>

definition agent_text :: agent where
  "agent_text =
     new_agent (scripted_client [text_response ''Is it 50?'', text_response ''Oh well''])
       ''gpt-5-nano'' 5"


text \<open>The model calls the tool with arguments that are not JSON.\<close>

definition bad_call :: tool_call where
  "bad_call =
     \<lparr>tc_id = ''call_1'',
      tc_function = \<lparr>fn_name = ''evaluate_your_try'', fn_arguments = ''fifty''\<rparr>\<rparr>"

definition agent_bad :: agent where
  "agent_bad =
     new_agent (scripted_client [tool_response [bad_call], text_response ''Sorry''])
       ''gpt-5-nano'' 5"

subsection \<open>Transcripts whose invocations are answered\<close>

text \<open>
  The property of a transcript that C7 is about: a turn is the tool-result turn for an
  invocation when it carries the invocation's identifier, and in the transcript every
  assistant turn with invocations is followed at once by the result turns for them, one
  for each, in their order.
\<close>

fun is_result_for :: "tool_call \<Rightarrow> message \<Rightarrow> bool" where
  "is_result_for tc (ToolMsg i n c) = (i = tc_id tc)"
| "is_result_for tc _ = False"

fun tool_results_follow :: "message list \<Rightarrow> bool" where
  "tool_results_follow [] = True"
| "tool_results_follow (AssistantMsg c tcs # ms) =
     (list_all2 is_result_for tcs (take (length tcs) ms) \<and> tool_results_follow ms)"
| "tool_results_follow (m # ms) = tool_results_follow ms"

text \<open>The dispatch of an invocation gives a response, not an exception.\<close>

definition dispatches :: "globals \<Rightarrow> tool_call \<Rightarrow> bool" where
  "dispatches G tc = (case snd (dispatch G tc) of Inl e \<Rightarrow> False | Inr r \<Rightarrow> True)"

text \<open>The invocations of a turn, and: no invocation in a transcript fails to dispatch.\<close>

fun invocations_of :: "message \<Rightarrow> tool_call list" where
  "invocations_of (AssistantMsg c tcs) = tcs"
| "invocations_of _ = []"

definition no_dispatch_raises :: "globals \<Rightarrow> message list \<Rightarrow> bool" where
  "no_dispatch_raises G ms = list_all (\<lambda>m. list_all (dispatches G) (invocations_of m)) ms"

section \<open>Properties\<close>

subsection \<open>The evaluator\<close>

lemma messages_distinct:
  "TOO_HIGH_MESSAGE \<noteq> TOO_LOW_MESSAGE"
  "TOO_HIGH_MESSAGE \<noteq> THAT_IS_RIGHT_MESSAGE"
  "TOO_LOW_MESSAGE \<noteq> THAT_IS_RIGHT_MESSAGE"
  by (simp_all add: TOO_HIGH_MESSAGE_def TOO_LOW_MESSAGE_def THAT_IS_RIGHT_MESSAGE_def)

text \<open>
  C1. For integers \<open>guess\<close> and \<open>secret\<close> between 1 and 100, the evaluator run against
  the secret \<open>app_random_number\<close> returns (it does not raise) one of the three messages:
  "That's right!" exactly when the guess equals the secret, "Too high!" exactly when it
  is greater, "Too low!" exactly when it is smaller; the three messages differ, so the
  three outcomes exclude one another.
\<close>

theorem evaluate_your_try_trichotomy:
  assumes "1 \<le> guess" "guess \<le> 100" "1 \<le> app_random_number G" "app_random_number G \<le> 100"
  shows "\<exists>r. snd (evaluate_your_try G (JInt guess)) = Inr r
           \<and> (r = THAT_IS_RIGHT_MESSAGE \<or> r = TOO_HIGH_MESSAGE \<or> r = TOO_LOW_MESSAGE)
           \<and> (r = THAT_IS_RIGHT_MESSAGE \<longleftrightarrow> guess = app_random_number G)
           \<and> (r = TOO_HIGH_MESSAGE \<longleftrightarrow> guess > app_random_number G)
           \<and> (r = TOO_LOW_MESSAGE \<longleftrightarrow> guess < app_random_number G)
           \<and> TOO_HIGH_MESSAGE \<noteq> TOO_LOW_MESSAGE
           \<and> TOO_HIGH_MESSAGE \<noteq> THAT_IS_RIGHT_MESSAGE
           \<and> TOO_LOW_MESSAGE \<noteq> THAT_IS_RIGHT_MESSAGE"
proof -
  consider "guess > app_random_number G" | "guess < app_random_number G"
    | "guess = app_random_number G"
    by linarith
  then show ?thesis
  proof cases
    case 1
    then show ?thesis
      using messages_distinct by (simp add: evaluate_your_try_def)
  next
    case 2
    then show ?thesis
      using messages_distinct by (simp add: evaluate_your_try_def)
  next
    case 3
    then show ?thesis
      using messages_distinct by (simp add: evaluate_your_try_def)
  qed
qed

theorem evaluate_your_try_trichotomy_witness:
  "snd (evaluate_your_try \<lparr>app_random_number = 42, json_loads = (\<lambda>s. Inl (JSONDecodeError s))\<rparr>
          (JInt 70)) = Inr TOO_HIGH_MESSAGE"
proof -
  let ?G = "\<lparr>app_random_number = 42, json_loads = (\<lambda>s. Inl (JSONDecodeError s))\<rparr>"
  have "\<exists>r. snd (evaluate_your_try ?G (JInt 70)) = Inr r
           \<and> (r = THAT_IS_RIGHT_MESSAGE \<or> r = TOO_HIGH_MESSAGE \<or> r = TOO_LOW_MESSAGE)
           \<and> (r = THAT_IS_RIGHT_MESSAGE \<longleftrightarrow> (70::int) = app_random_number ?G)
           \<and> (r = TOO_HIGH_MESSAGE \<longleftrightarrow> (70::int) > app_random_number ?G)
           \<and> (r = TOO_LOW_MESSAGE \<longleftrightarrow> (70::int) < app_random_number ?G)
           \<and> TOO_HIGH_MESSAGE \<noteq> TOO_LOW_MESSAGE
           \<and> TOO_HIGH_MESSAGE \<noteq> THAT_IS_RIGHT_MESSAGE
           \<and> TOO_LOW_MESSAGE \<noteq> THAT_IS_RIGHT_MESSAGE"
    by (rule evaluate_your_try_trichotomy) simp_all
  then show ?thesis by auto
qed

subsection \<open>The loop over the invocations\<close>

lemma tool_call_step_Normal:
  "snd (dispatch G tc) = Inr r \<Longrightarrow>
   \<exists>a'. tool_call_step G tc a = (Normal, a') \<and> messages a' = messages a @ [tool_turn (tc, r)]
     \<and> state a' = (if r = THAT_IS_RIGHT_MESSAGE then END else state a)
     \<and> requests a' = requests a \<and> client a' = client a \<and> model a' = model a"
  by (cases "dispatch G tc") (auto simp: tool_call_step_def tool_turn_def Let_def)

lemma tool_call_step_Raise:
  "snd (dispatch G tc) = Inl e \<Longrightarrow>
   \<exists>a'. tool_call_step G tc a = (Raise e, a') \<and> messages a' = messages a
     \<and> state a' = state a
     \<and> requests a' = requests a \<and> client a' = client a \<and> model a' = model a"
  by (cases "dispatch G tc") (auto simp: tool_call_step_def tool_turn_def Let_def)

lemma tool_calls_loop_shape:
  "tool_calls_loop G tcs a = (out, a') \<Longrightarrow>
     messages a' = messages a @ map tool_turn (answered G tcs)
   \<and> state a' = (if THAT_IS_RIGHT_MESSAGE \<in> snd ` set (answered G tcs) then END else state a)
   \<and> requests a' = requests a \<and> client a' = client a \<and> model a' = model a
   \<and> (out = Normal \<longleftrightarrow> length (answered G tcs) = length tcs)"
proof (induction tcs arbitrary: a)
  case Nil
  then show ?case by simp
next
  case (Cons tc tcs)
  show ?case
  proof (cases "snd (dispatch G tc)")
    case (Inl e)
    from tool_call_step_Raise[OF Inl, of a] Cons.prems Inl show ?thesis
      by auto
  next
    case (Inr r)
    from tool_call_step_Normal[OF Inr, of a] obtain a1 where
      s: "tool_call_step G tc a = (Normal, a1)" "messages a1 = messages a @ [tool_turn (tc, r)]"
      "state a1 = (if r = THAT_IS_RIGHT_MESSAGE then END else state a)"
      "requests a1 = requests a" "client a1 = client a" "model a1 = model a"
      by blast
    with Cons.prems have "tool_calls_loop G tcs a1 = (out, a')" by simp
    from Cons.IH[OF this] s Inr show ?thesis by auto
  qed
qed

lemma answered_prefix: "map fst (answered G tcs) = take (length (answered G tcs)) tcs"
  by (induction tcs) (auto split: sum.splits)

lemma answered_all:
  "(\<forall>t\<in>set tcs. \<exists>r. snd (dispatch G t) = Inr r) \<Longrightarrow> map fst (answered G tcs) = tcs"
  by (induction tcs) (auto split: sum.splits)

subsection \<open>One call of the model, and the guessing loop\<close>

lemma process_tool_response_shape:
  assumes "rm_tool_calls m = Some tcs" "process_tool_response G m a = (out, a')"
  shows "messages a' = messages a @ AssistantMsg (rm_content m) tcs # map tool_turn (answered G tcs)"
    and "state a' = (if THAT_IS_RIGHT_MESSAGE \<in> snd ` set (answered G tcs) then END else state a)"
    and "requests a' = requests a" and "client a' = client a" and "model a' = model a"
    and "out = Normal \<longleftrightarrow> length (answered G tcs) = length tcs"
  using assms tool_calls_loop_shape[of G tcs "a\<lparr>messages := messages a @ [AssistantMsg (rm_content m) tcs]\<rparr>" out a']
  by (simp_all add: process_tool_response_def)

lemma process_message_shape:
  assumes "process_message m a = (out, a')"
  shows "messages a' = messages a" "state a' = state a" "requests a' = requests a"
    "client a' = client a" "model a' = model a"
    "stdout a' = stdout a @ [LLM_content (rm_content m)]"
    "out = (if state a = PLAYING then Raise (Exception unexpected_message) else Normal)"
  using assms by (auto simp: process_message_def Let_def split: if_splits)

lemma call_llm_shape:
  assumes "call_llm G tools a = (out, a')"
  shows "requests a' = requests a @ [the_request a tools]"
    and "client a' = client a" and "model a' = model a"
    and "\<exists>ms. messages a' = messages a @ ms"
    and "state a' = state a \<or> state a' = END"
proof -
  let ?a1 = "a\<lparr>requests := requests a @ [the_request a tools]\<rparr>"
  have "requests a' = requests a @ [the_request a tools] \<and> client a' = client a \<and> model a' = model a
     \<and> (\<exists>ms. messages a' = messages a @ ms) \<and> (state a' = state a \<or> state a' = END)"
  proof (cases "client a (requests a) (the_request a tools)")
    case (Inl e)
    with assms show ?thesis by (auto simp: call_llm_def the_request_def Let_def)
  next
    case (Inr resp)
    show ?thesis
    proof (cases "choices resp")
      case Nil
      with Inr assms show ?thesis by (auto simp: call_llm_def the_request_def Let_def)
    next
      case (Cons m more)
      show ?thesis
      proof (cases "truthy (rm_tool_calls m)")
        case True
        then obtain tcs where tcs: "rm_tool_calls m = Some tcs"
          by (cases "rm_tool_calls m") auto
        from True Cons Inr assms have "process_tool_response G m ?a1 = (out, a')"
          by (simp add: call_llm_def the_request_def Let_def)
        from process_tool_response_shape[OF tcs this] show ?thesis by auto
      next
        case False
        with Cons Inr assms have "process_message m ?a1 = (out, a')"
          by (simp add: call_llm_def the_request_def Let_def)
        from process_message_shape[OF this] show ?thesis by auto
      qed
    qed
  qed
  then show "requests a' = requests a @ [the_request a tools]"
    and "client a' = client a" and "model a' = model a"
    and "\<exists>ms. messages a' = messages a @ ms"
    and "state a' = state a \<or> state a' = END" by blast+
qed

lemma tool_turn_correct: "correct_result (tool_turn (tc, r)) \<longleftrightarrow> json_dumps r = json_dumps THAT_IS_RIGHT_MESSAGE"
  by (simp add: tool_turn_def)

lemma call_llm_END_correct:
  assumes "call_llm G tools a = (out, a')" "state a \<noteq> END" "state a' = END"
  shows "\<exists>m\<in>set (messages a'). correct_result m"
proof -
  let ?a1 = "a\<lparr>requests := requests a @ [the_request a tools]\<rparr>"
  show ?thesis
  proof (cases "client a (requests a) (the_request a tools)")
    case (Inl e)
    with assms show ?thesis by (auto simp: call_llm_def the_request_def Let_def)
  next
    case (Inr resp)
    show ?thesis
    proof (cases "choices resp")
      case Nil
      with Inr assms show ?thesis by (auto simp: call_llm_def the_request_def Let_def)
    next
      case (Cons m more)
      show ?thesis
      proof (cases "truthy (rm_tool_calls m)")
        case True
        then obtain tcs where tcs: "rm_tool_calls m = Some tcs"
          by (cases "rm_tool_calls m") auto
        from True Cons Inr assms have "process_tool_response G m ?a1 = (out, a')"
          by (simp add: call_llm_def the_request_def Let_def)
        from process_tool_response_shape(1,2)[OF tcs this] assms(2,3)
        obtain p where p: "p \<in> set (answered G tcs)" "snd p = THAT_IS_RIGHT_MESSAGE"
          and ms: "messages a' = messages ?a1 @ AssistantMsg (rm_content m) tcs # map tool_turn (answered G tcs)"
          by (auto split: if_splits)
        have "correct_result (tool_turn p)" using p(2) by (simp add: tool_turn_def)
        moreover have "tool_turn p \<in> set (messages a')" using p(1) ms by simp
        ultimately show ?thesis by blast
      next
        case False
        with Cons Inr assms have "process_message m ?a1 = (out, a')"
          by (simp add: call_llm_def the_request_def Let_def)
        from process_message_shape(2)[OF this] assms show ?thesis by simp
      qed
    qed
  qed
qed

lemma guess_loop_shape:
  "guess_loop G a t = (ex, a') \<Longrightarrow>
     \<exists>rs. requests a' = requests a @ rs \<and> (\<forall>r\<in>set rs. req_tools r = g_tools)
       \<and> length rs \<le> nat (max_tries a - t)
       \<and> client a' = client a \<and> model a' = model a \<and> max_tries a' = max_tries a
       \<and> (\<exists>ms. messages a' = messages a @ ms)
       \<and> (state a' = state a \<or> state a' = END)
       \<and> (ex = Returned \<longrightarrow> state a' = END \<and> rs \<noteq> []
             \<and> (state a \<noteq> END \<longrightarrow> (\<exists>m\<in>set (messages a'). correct_result m)))
       \<and> (ex = Exhausted \<longrightarrow> state a' = state a \<and> length rs = nat (max_tries a - t))
       \<and> (\<forall>e. ex = Raised e \<longrightarrow> rs \<noteq> [])"
proof (induction G a t arbitrary: ex a' rule: guess_loop.induct)
  case (1 G a t)
  show ?case
  proof (cases "t < max_tries a")
    case False
    with "1.prems" have "ex = Exhausted" "a' = a" by (simp_all add: guess_loop.simps)
    with False show ?thesis by simp
  next
    case True
    obtain c a1 where c: "call_llm G g_tools a = (c, a1)" by (cases "call_llm G g_tools a")
    note sh = call_llm_shape[OF c] call_llm_max_tries[OF c]
    show ?thesis
    proof (cases c)
      case (Raise e)
      with True c "1.prems" have "ex = Raised e" "a' = a1" by (simp_all add: guess_loop.simps)
      with sh True show ?thesis
        by (intro exI[of _ "[the_request a g_tools]"]) (auto simp: the_request_def)
    next
      case Normal
      show ?thesis
      proof (cases "state a1 = END")
        case e: True
        with Normal True c "1.prems" have r: "ex = Returned" "a' = a1" by (simp_all add: guess_loop.simps)
        have "state a \<noteq> END \<longrightarrow> (\<exists>m\<in>set (messages a1). correct_result m)"
          using call_llm_END_correct[OF c _ e] by blast
        with r sh True e show ?thesis
          by (intro exI[of _ "[the_request a g_tools]"]) (auto simp: the_request_def)
      next
        case ne: False
        with Normal True c "1.prems" have "guess_loop G a1 (t + 1) = (ex, a')"
          by (simp add: guess_loop.simps)
        from "1.IH"[OF True c[symmetric] Normal ne this] obtain rs where rs:
          "requests a' = requests a1 @ rs" "\<forall>r\<in>set rs. req_tools r = g_tools"
          "length rs \<le> nat (max_tries a1 - (t + 1))"
          "client a' = client a1" "model a' = model a1" "max_tries a' = max_tries a1"
          "\<exists>ms. messages a' = messages a1 @ ms"
          "state a' = state a1 \<or> state a' = END"
          "ex = Returned \<longrightarrow> state a' = END \<and> rs \<noteq> []
             \<and> (state a1 \<noteq> END \<longrightarrow> (\<exists>m\<in>set (messages a'). correct_result m))"
          "ex = Exhausted \<longrightarrow> state a' = state a1 \<and> length rs = nat (max_tries a1 - (t + 1))"
          by blast
        from sh(5) ne have st: "state a1 = state a" by blast
        from sh(4) rs(7) have ms: "\<exists>ms. messages a' = messages a @ ms" by auto
        show ?thesis
          using rs st ms sh True ne
          by (intro exI[of _ "the_request a g_tools # rs"]) (auto simp: the_request_def)
      qed
    qed
  qed
qed

lemma tool_calls_loop_stdout:
  "tool_calls_loop G tcs a = (out, a') \<Longrightarrow> \<exists>ps. stdout a' = stdout a @ ps"
proof (induction tcs arbitrary: a)
  case Nil
  then show ?case by simp
next
  case (Cons tc tcs)
  obtain c a1 where s: "tool_call_step G tc a = (c, a1)" by (cases "tool_call_step G tc a")
  then have p: "\<exists>ps. stdout a1 = stdout a @ ps"
    by (auto simp: tool_call_step_def Let_def split: prod.splits sum.splits)
  show ?case
  proof (cases c)
    case Normal
    with s Cons.prems have "tool_calls_loop G tcs a1 = (out, a')" by simp
    from Cons.IH[OF this] p show ?thesis by auto
  next
    case (Raise e)
    with s Cons.prems p show ?thesis by auto
  qed
qed

lemma call_llm_stdout:
  assumes "call_llm G tools a = (out, a')"
  shows "\<exists>ps. stdout a' = stdout a @ ps"
  using assms
  by (auto simp: call_llm_def Let_def process_tool_response_def process_message_def
      split: sum.splits list.splits option.splits if_splits dest!: tool_calls_loop_stdout)

lemma play_epilogue_shape:
  assumes "play_epilogue G a = (out, a')"
  shows "state a' = END"
    and "requests a' = requests a @
           [\<lparr>req_model = model a, req_messages = messages a @ [Msg ''user'' (final_message G)],
             req_tools = []\<rparr>]"
    and "\<exists>ms. messages a' = messages a @ Msg ''user'' (final_message G) # ms"
    and "\<exists>ps. stdout a' = stdout a @ Text (final_message G) # ps"
    and "client a' = client a" and "model a' = model a" and "max_tries a' = max_tries a"
proof -
  let ?b = "a\<lparr>state := END, stdout := stdout a @ [Text (final_message G)],
               messages := messages a @ [Msg ''user'' (final_message G)]\<rparr>"
  from assms have c: "call_llm G [] ?b = (out, a')" by (simp add: play_epilogue_def)
  from call_llm_shape[OF c] call_llm_stdout[OF c] call_llm_max_tries[OF c]
  show "state a' = END"
    and "requests a' = requests a @
           [\<lparr>req_model = model a, req_messages = messages a @ [Msg ''user'' (final_message G)],
             req_tools = []\<rparr>]"
    and "\<exists>ms. messages a' = messages a @ Msg ''user'' (final_message G) # ms"
    and "\<exists>ps. stdout a' = stdout a @ Text (final_message G) # ps"
    and "client a' = client a" and "model a' = model a" and "max_tries a' = max_tries a"
    by (auto simp: the_request_def)
qed


subsection \<open>The bound on the guessing rounds\<close>

text \<open>
  C2. Take any run of \<open>play\<close> in which no evaluator result is "That's right!", that
  is, whose transcript holds no tool-result turn with that answer. The requests of the
  run are then at most \<open>max_tries\<close> requests that offer the tool (none when \<open>max_tries\<close> is
  not positive), followed by the one request without tools that comes after the state
  has been forced to \<open>END\<close>; the run ends in state \<open>END\<close>.
\<close>

theorem play_rounds_bounded:
  assumes "play G a = (out, a')"
    and "\<forall>m\<in>set (messages a'). \<not> correct_result m"
  shows "\<exists>rs final. requests a' = requests a @ rs @ [final]
           \<and> (\<forall>r\<in>set rs. req_tools r = g_tools) \<and> g_tools \<noteq> []
           \<and> length rs \<le> nat (max_tries a)
           \<and> req_tools final = [] \<and> state a' = END"
proof -
  let ?a0 = "a\<lparr>state := PLAYING\<rparr>"
  obtain ex a1 where l: "guess_loop G ?a0 0 = (ex, a1)" by (cases "guess_loop G ?a0 0")
  from guess_loop_shape[OF l] obtain rs where rs:
    "requests a1 = requests a @ rs" "\<forall>r\<in>set rs. req_tools r = g_tools"
    "length rs \<le> nat (max_tries a)"
    "ex = Returned \<longrightarrow> (\<exists>m\<in>set (messages a1). correct_result m)"
    by auto
  have g: "g_tools \<noteq> []" by (simp add: g_tools_def)
  show ?thesis
  proof (cases ex)
    case Returned
    with l assms(1) have "a' = a1" by (simp add: play_def play_from_def)
    with rs(4) Returned assms(2) show ?thesis by blast
  next
    case Exhausted
    with l assms(1) have "play_epilogue G a1 = (out, a')" by (simp add: play_def play_from_def)
    from play_epilogue_shape(1,2)[OF this] rs g show ?thesis by auto
  next
    case (Raised e)
    with l assms(1) have "play_epilogue G (a1\<lparr>stdout := stdout a1 @ [Error_line e]\<rparr>) = (out, a')"
      by (simp add: play_def play_from_def)
    from play_epilogue_shape(1,2)[OF this] rs g show ?thesis by auto
  qed
qed

theorem play_rounds_bounded_witness:
  "length (requests (snd (play G7 agent7))) \<le> 3 \<and> state (snd (play G7 agent7)) = END"
proof -
  have 1: "play G7 agent7 = (fst (play G7 agent7), snd (play G7 agent7))" by simp
  have 2: "\<forall>m\<in>set (messages (snd (play G7 agent7))). \<not> correct_result m" by code_simp
  have 3: "requests agent7 = []" "max_tries agent7 = 2" by code_simp+
  from play_rounds_bounded[OF 1 2] 3 show ?thesis by auto
qed

subsection \<open>The end of a lost game\<close>





subsection \<open>Exceptions in the guessing loop\<close>

lemma call_llm_plain_reply:
  assumes "state a = PLAYING"
    and "client a (requests a) (the_request a tools) = Inr resp"
    and "choices resp = m # others" and "\<not> truthy (rm_tool_calls m)"
  shows "call_llm G tools a =
           (Raise (Exception unexpected_message),
            a\<lparr>requests := requests a @ [the_request a tools],
              stdout := stdout a @ [LLM_content (rm_content m)]\<rparr>)"
  using assms by (simp add: call_llm_def the_request_def Let_def process_message_def)

lemma guess_loop_raise:
  assumes "t < max_tries a" "call_llm G g_tools a = (Raise e, a1)"
  shows "guess_loop G a t = (Raised e, a1)"
  using assms by (simp add: guess_loop.simps[of G a t])


text \<open>
  C5. In a round of the guessing loop (the state is \<open>PLAYING\<close> and the counter is below
  \<open>max_tries\<close>, whatever \<open>max_tries\<close> is), let the response carry no tool invocation.
  Then \<open>process_message\<close> raises the exception "Unexpected message from LLM during
  PLAYING state.", the loop is left by it, and the \<^verbatim>\<open>except\<close> clause of \<open>play\<close> prints
  it. The game ends in this round: the state is \<open>END\<close>, and the only request after this
  round's is the closing one without tools, so none of the remaining guessing rounds
  takes place.
\<close>

theorem plain_reply_ends_game:
  assumes "state a = PLAYING" and "t < max_tries a"
    and "client a (requests a) (the_request a g_tools) = Inr resp"
    and "choices resp = m # others" and "\<not> truthy (rm_tool_calls m)"
    and "play_from G a t = (out, a')"
  shows "fst (call_llm G g_tools a) = Raise (Exception unexpected_message)
       \<and> fst (guess_loop G a t) = Raised (Exception unexpected_message)
       \<and> Error_line (Exception unexpected_message) \<in> set (stdout a')
       \<and> state a' = END
       \<and> requests a' = requests a @
            [the_request a g_tools,
             \<lparr>req_model = model a, req_messages = messages a @ [Msg ''user'' (final_message G)],
               req_tools = []\<rparr>]"
proof -
  let ?e = "Exception unexpected_message"
  let ?a1 = "a\<lparr>requests := requests a @ [the_request a g_tools],
                stdout := stdout a @ [LLM_content (rm_content m)]\<rparr>"
  have c: "call_llm G g_tools a = (Raise ?e, ?a1)"
    using assms(1,3,4,5) by (rule call_llm_plain_reply)
  have l: "guess_loop G a t = (Raised ?e, ?a1)"
    using assms(2) c by (rule guess_loop_raise)
  with assms(6) have "play_epilogue G (?a1\<lparr>stdout := stdout ?a1 @ [Error_line ?e]\<rparr>) = (out, a')"
    by (simp add: play_from_def)
  from play_epilogue_shape(1,2,4)[OF this] c l show ?thesis by auto
qed

theorem plain_reply_ends_game_witness:
  "state (snd (play G42 agent_text)) = END
   \<and> map req_tools (requests (snd (play G42 agent_text))) = [g_tools, []]"
proof -
  let ?a = "agent_text\<lparr>state := PLAYING\<rparr>"
  let ?m = "\<lparr>rm_content = Some ''Is it 50?'', rm_tool_calls = None\<rparr>"
  have 1: "state ?a = PLAYING" by simp
  have 2: "0 < max_tries ?a" by code_simp
  have 3: "client ?a (requests ?a) (the_request ?a g_tools) = Inr \<lparr>choices = [?m]\<rparr>"
    by (simp add: agent_text_def new_agent_def init_def scripted_client_def text_response_def)
  have 4: "choices \<lparr>choices = [?m]\<rparr> = ?m # []" by simp
  have 5: "\<not> truthy (rm_tool_calls ?m)" by simp
  have 6: "play_from G42 ?a 0 = (fst (play G42 agent_text), snd (play G42 agent_text))"
    by (simp add: play_def)
  have 7: "requests ?a = []" by code_simp
  from plain_reply_ends_game[OF 1 2 3 4 5 6] 7 show ?thesis
    by (simp add: the_request_def)
qed




subsection \<open>A correct guess\<close>



lemma evaluate_your_try_range:
  "snd (evaluate_your_try G v) = Inr r \<Longrightarrow>
   r = TOO_HIGH_MESSAGE \<or> r = TOO_LOW_MESSAGE \<or> r = THAT_IS_RIGHT_MESSAGE"
  by (auto simp: evaluate_your_try_def split: sum.splits bool.splits)

lemma dispatch_range:
  assumes "snd (dispatch G tc) = Inr r"
  shows "r = TOO_HIGH_MESSAGE \<or> r = TOO_LOW_MESSAGE \<or> r = THAT_IS_RIGHT_MESSAGE"
proof (cases "json_loads G (fn_arguments (tc_function tc))")
  case (Inl e)
  with assms show ?thesis by (simp add: dispatch_def)
next
  case (Inr args)
  show ?thesis
  proof (cases "fn_name (tc_function tc) = ''evaluate_your_try''")
    case False
    with Inr assms show ?thesis by (simp add: dispatch_def available_functions_def)
  next
    case True
    with Inr assms have c: "snd (call_with_kwargs evaluate_your_try_kw G args) = Inr r"
      by (simp add: dispatch_def available_functions_def)
    then obtain kvs where kvs: "args = JObject kvs" by (cases args) auto
    with c have "snd (evaluate_your_try_kw G kvs) = Inr r" by simp
    then obtain v where "snd (evaluate_your_try G v) = Inr r"
      by (cases "(G, kvs)" rule: evaluate_your_try_kw.cases) (auto split: if_splits)
    then show ?thesis by (rule evaluate_your_try_range)
  qed
qed

lemma answered_verdict:
  "p \<in> set (answered G tcs) \<Longrightarrow> snd (dispatch G (fst p)) = Inr (snd p)"
  by (induction tcs) (auto split: sum.splits)





subsection \<open>The tool-result turns\<close>

lemma json_dumps_literals:
  "json_dumps TOO_HIGH_MESSAGE = [CHR 0x22] @ TOO_HIGH_MESSAGE @ [CHR 0x22]"
  "json_dumps TOO_LOW_MESSAGE = [CHR 0x22] @ TOO_LOW_MESSAGE @ [CHR 0x22]"
  "json_dumps THAT_IS_RIGHT_MESSAGE = [CHR 0x22] @ THAT_IS_RIGHT_MESSAGE @ [CHR 0x22]"
  by (simp_all add: json_dumps_def json_escape_def TOO_HIGH_MESSAGE_def TOO_LOW_MESSAGE_def
      THAT_IS_RIGHT_MESSAGE_def)




text \<open>
  C4, as the code has it. The turns that \<open>process_tool_response\<close> appends after the
  assistant turn are tool-result turns whose content is the \<^verbatim>\<open>json.dumps\<close> of one of
  the three messages "Too high!", "Too low!", "That's right!": the message between two
  double quotes, not the message itself.
\<close>

theorem tool_result_content_serialized:
  assumes "rm_tool_calls m = Some tcs" and "process_tool_response G m a = (out, a')"
  shows "\<exists>turns. messages a' = messages a @ AssistantMsg (rm_content m) tcs # turns
           \<and> (\<forall>msg\<in>set turns. \<exists>i n lit. msg = ToolMsg i n (json_dumps lit)
                  \<and> json_dumps lit = [CHR 0x22] @ lit @ [CHR 0x22]
                  \<and> (lit = TOO_HIGH_MESSAGE \<or> lit = TOO_LOW_MESSAGE \<or> lit = THAT_IS_RIGHT_MESSAGE))"
proof -
  let ?turns = "map tool_turn (answered G tcs)"
  have "\<exists>i n lit. msg = ToolMsg i n (json_dumps lit)
                  \<and> json_dumps lit = [CHR 0x22] @ lit @ [CHR 0x22]
                  \<and> (lit = TOO_HIGH_MESSAGE \<or> lit = TOO_LOW_MESSAGE \<or> lit = THAT_IS_RIGHT_MESSAGE)"
    if "msg \<in> set ?turns" for msg
  proof -
    from that obtain p where p: "p \<in> set (answered G tcs)" "msg = tool_turn p" by auto
    from answered_verdict[OF p(1)] have "snd (dispatch G (fst p)) = Inr (snd p)" .
    then have r: "snd p = TOO_HIGH_MESSAGE \<or> snd p = TOO_LOW_MESSAGE \<or> snd p = THAT_IS_RIGHT_MESSAGE"
      by (rule dispatch_range)
    then have d: "json_dumps (snd p) = [CHR 0x22] @ snd p @ [CHR 0x22]"
      using json_dumps_literals by auto
    have "msg = ToolMsg (tc_id (fst p)) (fn_name (tc_function (fst p))) (json_dumps (snd p))"
      using p(2) by (simp add: tool_turn_def)
    with r d show ?thesis by blast
  qed
  with process_tool_response_shape(1)[OF assms] show ?thesis by blast
qed

theorem tool_result_content_serialized_witness:
  "\<exists>turns. messages (snd (process_tool_response G42
        \<lparr>rm_content = None, rm_tool_calls = Some [guess_call ''call_1'' ''70'']\<rparr> agent42))
      = messages agent42 @ AssistantMsg None [guess_call ''call_1'' ''70''] # turns"
proof -
  let ?m = "\<lparr>rm_content = None, rm_tool_calls = Some [guess_call ''call_1'' ''70'']\<rparr>"
  have 1: "rm_tool_calls ?m = Some [guess_call ''call_1'' ''70'']" by simp
  have 2: "process_tool_response G42 ?m agent42 =
      (fst (process_tool_response G42 ?m agent42), snd (process_tool_response G42 ?m agent42))"
    by simp
  from tool_result_content_serialized[OF 1 2] show ?thesis by auto
qed

text \<open>
  C4 as stated fails: for the guess 70 against the secret 42 the content of the
  tool-result turn is \<^verbatim>\<open>"Too high!"\<close> with its two double quotes, eleven characters,
  which is none of the three messages.
\<close>

theorem tool_result_not_verbatim_counterexample:
  "messages (snd (process_tool_response G42
        \<lparr>rm_content = None, rm_tool_calls = Some [guess_call ''call_1'' ''70'']\<rparr> agent42))
     = messages agent42 @
         [AssistantMsg None [guess_call ''call_1'' ''70''],
          ToolMsg ''call_1'' ''evaluate_your_try'' ([CHR 0x22] @ ''Too high!'' @ [CHR 0x22])]
   \<and> [CHR 0x22] @ ''Too high!'' @ [CHR 0x22]
        \<notin> {TOO_HIGH_MESSAGE, TOO_LOW_MESSAGE, THAT_IS_RIGHT_MESSAGE}"
  by code_simp

subsection \<open>Assistant turns and their tool-result turns\<close>

lemma dispatches_iff: "dispatches G tc \<longleftrightarrow> (\<exists>r. snd (dispatch G tc) = Inr r)"
  by (simp add: dispatches_def split: sum.splits)

lemma tool_results_follow_append:
  "tool_results_follow xs \<Longrightarrow> tool_results_follow (xs @ ys) = tool_results_follow ys"
proof (induction xs rule: tool_results_follow.induct)
  case (2 c tcs ms)
  then have l: "list_all2 is_result_for tcs (take (length tcs) ms)" and f: "tool_results_follow ms"
    by simp_all
  from l have "length tcs = length (take (length tcs) ms)" by (rule list_all2_lengthD)
  then have "length tcs \<le> length ms" by simp
  then have t: "take (length tcs) (ms @ ys) = take (length tcs) ms" by simp
  have "tool_results_follow (ms @ ys) = tool_results_follow ys" using f by (rule "2.IH")
  then have "tool_results_follow (AssistantMsg c tcs # (ms @ ys)) = tool_results_follow ys"
    using l unfolding tool_results_follow.simps t by simp
  then show ?case by simp
qed simp_all

lemma tool_results_follow_turns: "tool_results_follow (map tool_turn ps)"
  by (induction ps) (simp_all add: tool_turn_def)

lemma is_result_for_turns: "list_all2 is_result_for (map fst ps) (map tool_turn ps)"
  by (induction ps) (simp_all add: tool_turn_def)

lemma tool_results_follow_block:
  assumes "map fst ps = tcs"
  shows "tool_results_follow (AssistantMsg c tcs # map tool_turn ps)"
proof -
  have "length tcs = length ps" using assms by (metis length_map)
  then have "take (length tcs) (map tool_turn ps) = map tool_turn ps" by simp
  moreover have "list_all2 is_result_for tcs (map tool_turn ps)"
    using is_result_for_turns[of ps] assms by simp
  ultimately show ?thesis by (simp add: tool_results_follow_turns)
qed

lemma no_dispatch_raises_append:
  "no_dispatch_raises G (xs @ ys) \<longleftrightarrow> no_dispatch_raises G xs \<and> no_dispatch_raises G ys"
  by (simp add: no_dispatch_raises_def)

lemma call_llm_cases:
  assumes "call_llm G tools a = (out, a')"
  shows "messages a' = messages a
       \<or> (\<exists>c tcs. messages a' = messages a @ AssistantMsg c tcs # map tool_turn (answered G tcs))"
proof (cases "client a (requests a) (the_request a tools)")
  case (Inl e)
  with assms show ?thesis by (auto simp: call_llm_def the_request_def Let_def)
next
  case (Inr resp)
  show ?thesis
  proof (cases "choices resp")
    case Nil
    with Inr assms show ?thesis by (auto simp: call_llm_def the_request_def Let_def)
  next
    case (Cons m others)
    let ?a1 = "a\<lparr>requests := requests a @ [the_request a tools]\<rparr>"
    show ?thesis
    proof (cases "truthy (rm_tool_calls m)")
      case True
      then obtain tcs where tcs: "rm_tool_calls m = Some tcs"
        by (cases "rm_tool_calls m") auto
      from True Cons Inr assms have "process_tool_response G m ?a1 = (out, a')"
        by (simp add: call_llm_def the_request_def Let_def)
      from process_tool_response_shape(1)[OF tcs this] show ?thesis by auto
    next
      case False
      with Cons Inr assms have "process_message m ?a1 = (out, a')"
        by (simp add: call_llm_def the_request_def Let_def)
      from process_message_shape(1)[OF this] show ?thesis by simp
    qed
  qed
qed

lemma call_llm_follow:
  assumes "call_llm G tools a = (out, a')" and "tool_results_follow (messages a)"
    and "no_dispatch_raises G (messages a')"
  shows "tool_results_follow (messages a')"
proof -
  from call_llm_cases[OF assms(1)] show ?thesis
  proof
    assume "messages a' = messages a"
    with assms(2) show ?thesis by simp
  next
    assume "\<exists>c tcs. messages a' = messages a @ AssistantMsg c tcs # map tool_turn (answered G tcs)"
    then obtain c tcs where m: "messages a' = messages a @ AssistantMsg c tcs # map tool_turn (answered G tcs)"
      by blast
    with assms(3) have "list_all (dispatches G) tcs"
      by (simp add: no_dispatch_raises_def)
    then have "\<forall>t\<in>set tcs. \<exists>r. snd (dispatch G t) = Inr r"
      by (simp add: list_all_iff dispatches_iff)
    then have "map fst (answered G tcs) = tcs" by (rule answered_all)
    then have "tool_results_follow (AssistantMsg c tcs # map tool_turn (answered G tcs))"
      by (rule tool_results_follow_block)
    with m assms(2) show ?thesis by (simp add: tool_results_follow_append)
  qed
qed

lemma guess_loop_follow:
  "guess_loop G a t = (ex, a') \<Longrightarrow> tool_results_follow (messages a) \<Longrightarrow>
   no_dispatch_raises G (messages a') \<Longrightarrow> tool_results_follow (messages a')"
proof (induction G a t arbitrary: ex a' rule: guess_loop.induct)
  case (1 G a t)
  show ?case
  proof (cases "t < max_tries a")
    case False
    with "1.prems" show ?thesis by (simp add: guess_loop.simps)
  next
    case True
    obtain c a1 where c: "call_llm G g_tools a = (c, a1)" by (cases "call_llm G g_tools a")
    show ?thesis
    proof (cases "c = Normal \<and> state a1 \<noteq> END")
      case False
      with True c "1.prems"(1) have "a' = a1"
        by (cases c) (auto simp: guess_loop.simps[of G a t] split: if_splits)
      with call_llm_follow[OF c "1.prems"(2)] "1.prems"(3) show ?thesis by simp
    next
      case n: True
      with True c "1.prems"(1) have l: "guess_loop G a1 (t + 1) = (ex, a')"
        by (simp add: guess_loop.simps[of G a t])
      from guess_loop_shape[OF l] obtain ms where "messages a' = messages a1 @ ms" by auto
      with "1.prems"(3) have "no_dispatch_raises G (messages a1)"
        by (simp add: no_dispatch_raises_append)
      with call_llm_follow[OF c "1.prems"(2)] have "tool_results_follow (messages a1)" by simp
      from "1.IH"[OF True c[symmetric] _ _ l this "1.prems"(3)] n show ?thesis by simp
    qed
  qed
qed

lemma play_epilogue_follow:
  assumes "play_epilogue G a = (out, a')" and "tool_results_follow (messages a)"
    and "no_dispatch_raises G (messages a')"
  shows "tool_results_follow (messages a')"
proof -
  let ?b = "a\<lparr>state := END, stdout := stdout a @ [Text (final_message G)],
               messages := messages a @ [Msg ''user'' (final_message G)]\<rparr>"
  from assms(1) have c: "call_llm G [] ?b = (out, a')" by (simp add: play_epilogue_def)
  have "tool_results_follow (messages ?b)" using assms(2) by (simp add: tool_results_follow_append)
  from call_llm_follow[OF c this assms(3)] show ?thesis .
qed

text \<open>
  C7, as the code has it. Take a run of \<open>play\<close> from a transcript that has the property,
  and let no invocation of an assistant turn of the final transcript be one whose
  dispatch raises (that is, no dispatch raised in the run). Then in the final
  transcript every assistant turn with tool invocations is followed immediately by one
  tool-result turn for each invocation, with the invocation's identifier as
  \<^verbatim>\<open>tool_call_id\<close>, in the order of the invocations.
\<close>

theorem transcript_results_follow:
  assumes "play G a = (out, a')" and "tool_results_follow (messages a)"
    and "no_dispatch_raises G (messages a')"
  shows "tool_results_follow (messages a')"
proof -
  let ?a0 = "a\<lparr>state := PLAYING\<rparr>"
  obtain ex a1 where l: "guess_loop G ?a0 0 = (ex, a1)" by (cases "guess_loop G ?a0 0")
  have f0: "tool_results_follow (messages ?a0)" using assms(2) by simp
  show ?thesis
  proof (cases ex)
    case Returned
    with l assms(1) have "a' = a1" by (simp add: play_def play_from_def)
    with guess_loop_follow[OF l f0] assms(3) show ?thesis by simp
  next
    case Exhausted
    with l assms(1) have e: "play_epilogue G a1 = (out, a')" by (simp add: play_def play_from_def)
    from play_epilogue_shape(3)[OF e] assms(3) have "no_dispatch_raises G (messages a1)"
      by (auto simp: no_dispatch_raises_append)
    from play_epilogue_follow[OF e guess_loop_follow[OF l f0 this] assms(3)] show ?thesis .
  next
    case (Raised x)
    let ?a1 = "a1\<lparr>stdout := stdout a1 @ [Error_line x]\<rparr>"
    from Raised l assms(1) have e: "play_epilogue G ?a1 = (out, a')"
      by (simp add: play_def play_from_def)
    from play_epilogue_shape(3)[OF e] assms(3) have "no_dispatch_raises G (messages a1)"
      by (auto simp: no_dispatch_raises_append)
    from guess_loop_follow[OF l f0 this] have "tool_results_follow (messages ?a1)" by simp
    from play_epilogue_follow[OF e this assms(3)] show ?thesis .
  qed
qed

theorem transcript_results_follow_witness:
  "tool_results_follow (messages (snd (play G42 agent42)))"
proof -
  have 1: "play G42 agent42 = (fst (play G42 agent42), snd (play G42 agent42))" by simp
  have 2: "tool_results_follow (messages agent42)" by code_simp
  have 3: "no_dispatch_raises G42 (messages (snd (play G42 agent42)))" by code_simp
  from transcript_results_follow[OF 1 2 3] show ?thesis .
qed

text \<open>
  C7 as stated fails: when the dispatch of an invocation raises (here the arguments are
  not JSON), the assistant turn is already in the transcript and no tool-result turn is
  appended for the invocation; the next turn is the closing user turn.
\<close>

theorem unanswered_invocation_counterexample:
  "\<not> tool_results_follow (messages (snd (play G42 agent_bad)))"
  by code_simp

text \<open>The transcript of that run.\<close>

lemma agent_bad_transcript:
  "messages (snd (play G42 agent_bad)) =
     [Msg ''system'' ''You are a fortune teller'', Msg ''user'' (start_game_message 5),
      AssistantMsg None [bad_call], Msg ''user'' (final_message G42)]"
  by code_simp

end
